theory Spec2Isabelle
  imports Main
begin

unbundle bit_operations_syntax

section \<open>Python values used by the two scripts\<close>

text \<open>
  A Python \<^verbatim>\<open>str\<close> is a finite sequence of Unicode code points, each in the range
  \<open>0 .. 0x10FFFF\<close>; surrogate code points \<open>0xD800 .. 0xDFFF\<close> are allowed in a Python
  string.  A string is modelled by the list of its code points.  Literals that are pure
  ASCII are written with \<open>lit\<close>; the backslash is written as the number 92.
\<close>

type_synonym pystr = "nat list"

definition lit :: "string \<Rightarrow> pystr" where
  "lit s = map of_char s"

definition is_str :: "pystr \<Rightarrow> bool" where
  "is_str s = list_all (\<lambda>c. c < 0x110000) s"

text \<open>
  A Python \<^verbatim>\<open>dict\<close> keeps its items in insertion order and has no two items with the
  same key.  The dict literals of the scripts are written as association lists in the
  order of the source; \<open>is_dict\<close> says that the keys are pairwise different.
\<close>

type_synonym pydict = "(pystr \<times> pystr) list"

definition is_dict :: "pydict \<Rightarrow> bool" where
  "is_dict d = distinct (map fst d)"

section \<open>Formatting integers\<close>

text \<open>
  \<^verbatim>\<open>str(n)\<close> of a Python int, as the f-string \<^verbatim>\<open>f"{response.status_code}"\<close> computes it:
  the decimal digits, most significant first, with a minus sign for a negative number.
\<close>

fun digits :: "nat \<Rightarrow> pystr" where
  "digits n = (if n < 10 then [48 + n] else digits (n div 10) @ [48 + n mod 10])"

declare digits.simps [simp del]

definition str_int :: "int \<Rightarrow> pystr" where
  "str_int i = (if i < 0 then 45 # digits (nat (- i)) else digits (nat i))"

text \<open>
  \<^verbatim>\<open>'{0:04x}'.format(n)\<close>: the lower-case hexadecimal digits of \<open>n\<close>, padded with zeros on
  the left to a width of at least four.
\<close>

definition hexdigit :: "nat \<Rightarrow> nat" where
  "hexdigit d = (if d < 10 then 48 + d else 87 + d)"

fun hex :: "nat \<Rightarrow> pystr" where
  "hex n = (if n < 16 then [hexdigit n] else hex (n div 16) @ [hexdigit (n mod 16)])"

declare hex.simps [simp del]

definition format_04x :: "nat \<Rightarrow> pystr" where
  "format_04x n = replicate (4 - length (hex n)) 48 @ hex n"

section \<open>json.dumps with its default arguments, on a dict of strings\<close>

text \<open>
  Both scripts call \<^verbatim>\<open>json.dumps(payload)\<close> with no further argument, so
  \<^verbatim>\<open>ensure_ascii\<close> is true and the separators are \<^verbatim>\<open>', '\<close> and \<^verbatim>\<open>': '\<close>.  The function
  is the one of Python's standard library (json/encoder.py); what follows is its
  behaviour on a dict whose keys and values are strings.

  \<^verbatim>\<open>ESCAPE_ASCII = re.compile(r'([\\"]|[^\ -~])')\<close> matches the backslash, the double
  quote and every code point outside the printable ASCII range \<open>0x20 .. 0x7E\<close>.
\<close>

definition ESCAPE_ASCII :: "nat \<Rightarrow> bool" where
  "ESCAPE_ASCII c = (c = 92 \<or> c = 34 \<or> c < 32 \<or> 126 < c)"

text \<open>
  \<^verbatim>\<open>ESCAPE_DCT\<close> holds the two-character escapes of backslash, double quote, backspace,
  form feed, newline, carriage return and tab, and, by
  \<^verbatim>\<open>ESCAPE_DCT.setdefault(chr(i), '\\u{0:04x}'.format(i))\<close> for \<open>i\<close> in \<open>range(0x20)\<close>, the
  six-character escape of every other control character.
\<close>

definition ESCAPE_DCT :: "nat \<Rightarrow> pystr option" where
  "ESCAPE_DCT c =
     (if c = 92 then Some [92, 92]
      else if c = 34 then Some [92, 34]
      else if c = 8 then Some [92, 98]
      else if c = 12 then Some [92, 102]
      else if c = 10 then Some [92, 110]
      else if c = 13 then Some [92, 114]
      else if c = 9 then Some [92, 116]
      else if c < 0x20 then Some ([92, 117] @ format_04x c)
      else None)"

text \<open>
  The function \<^verbatim>\<open>replace\<close> inside \<^verbatim>\<open>py_encode_basestring_ascii\<close>: a matched code point
  that is not a key of \<^verbatim>\<open>ESCAPE_DCT\<close> becomes one \<^verbatim>\<open>\uXXXX\<close> escape when it is below
  \<open>0x10000\<close> and a surrogate pair of two such escapes otherwise.
\<close>

definition replace :: "nat \<Rightarrow> pystr" where
  "replace c =
     (case ESCAPE_DCT c of
        Some e \<Rightarrow> e
      | None \<Rightarrow>
          if c < 0x10000 then [92, 117] @ format_04x c
          else
            let n = c - 0x10000;
                s1 = 0xd800 OR (drop_bit 10 n AND 0x3ff);
                s2 = 0xdc00 OR (n AND 0x3ff)
            in [92, 117] @ format_04x s1 @ [92, 117] @ format_04x s2)"

text \<open>
  \<^verbatim>\<open>'"' + ESCAPE_ASCII.sub(replace, s) + '"'\<close>: every code point that the pattern matches
  is replaced, every other one is kept.
\<close>

definition encode_char :: "nat \<Rightarrow> pystr" where
  "encode_char c = (if ESCAPE_ASCII c then replace c else [c])"

definition encode_basestring_ascii :: "pystr \<Rightarrow> pystr" where
  "encode_basestring_ascii s = [34] @ concat (map encode_char s) @ [34]"

text \<open>\<^verbatim>\<open>sep.join(xs)\<close> on a list of strings.\<close>

fun join :: "pystr \<Rightarrow> pystr list \<Rightarrow> pystr" where
  "join sep [] = []"
| "join sep [x] = x"
| "join sep (x # y # ys) = x @ sep @ join sep (y # ys)"

text \<open>
  The encoding of a dict: an opening brace, the items in the order of the dict, each as
  the encoded key, the key separator and the encoded value, with the item separator
  between two items, and a closing brace.
\<close>

definition item_separator :: pystr where
  "item_separator = lit '', ''"

definition key_separator :: pystr where
  "key_separator = lit '': ''"

definition encode_item :: "pystr \<times> pystr \<Rightarrow> pystr" where
  "encode_item kv =
     encode_basestring_ascii (fst kv) @ key_separator @ encode_basestring_ascii (snd kv)"

definition json_dumps :: "pydict \<Rightarrow> pystr" where
  "json_dumps d = [123] @ join item_separator (map encode_item d) @ [125]"

section \<open>Parsing the text back: json.loads on an object of strings\<close>

text \<open>
  The scripts never parse JSON; the round-trip property of the specification speaks of
  parsing the request body back.  The parser below is \<^verbatim>\<open>json.loads\<close> of Python's standard
  library (json/decoder.py, with the default \<^verbatim>\<open>strict=True\<close>), restricted to the texts
  that are one JSON object whose member values are strings: on any other value, and
  wherever \<^verbatim>\<open>json.loads\<close> raises \<^verbatim>\<open>JSONDecodeError\<close>, the result is \<open>None\<close>.
\<close>

definition high_surrogate :: "nat \<Rightarrow> bool" where
  "high_surrogate c = (0xd800 \<le> c \<and> c \<le> 0xdbff)"

definition low_surrogate :: "nat \<Rightarrow> bool" where
  "low_surrogate c = (0xdc00 \<le> c \<and> c \<le> 0xdfff)"

text \<open>The value of one hexadecimal digit, in either case.\<close>

definition hexval :: "nat \<Rightarrow> nat option" where
  "hexval c =
     (if 48 \<le> c \<and> c \<le> 57 then Some (c - 48)
      else if 97 \<le> c \<and> c \<le> 102 then Some (c - 87)
      else if 65 \<le> c \<and> c \<le> 70 then Some (c - 55)
      else None)"

fun int16 :: "pystr \<Rightarrow> nat \<Rightarrow> nat option" where
  "int16 [] acc = Some acc"
| "int16 (c # cs) acc = (case hexval c of None \<Rightarrow> None | Some v \<Rightarrow> int16 cs (acc * 16 + v))"

text \<open>
  \<^verbatim>\<open>_decode_uXXXX\<close>: the number written by the four characters that follow \<^verbatim>\<open>\u\<close>; an
  error when fewer than four characters are left or one of them is not a hexadecimal
  digit.
\<close>

definition decode_uXXXX :: "pystr \<Rightarrow> nat option" where
  "decode_uXXXX s = (let esc = take 4 s in if length esc = 4 then int16 esc 0 else None)"

text \<open>The table \<^verbatim>\<open>BACKSLASH\<close> of the decoder: the character after a backslash, other than u.\<close>

definition BACKSLASH :: "nat \<Rightarrow> nat option" where
  "BACKSLASH esc =
     (if esc = 34 then Some 34
      else if esc = 92 then Some 92
      else if esc = 47 then Some 47
      else if esc = 98 then Some 8
      else if esc = 102 then Some 12
      else if esc = 110 then Some 10
      else if esc = 114 then Some 13
      else if esc = 116 then Some 9
      else None)"

definition prepend :: "nat \<Rightarrow> (pystr \<times> pystr) option \<Rightarrow> (pystr \<times> pystr) option" where
  "prepend c res = (case res of None \<Rightarrow> None | Some (t, r) \<Rightarrow> Some (c # t, r))"

text \<open>
  The escape sequence that follows a backslash inside a string: the code point it
  stands for and the text after it.  A \<^verbatim>\<open>\uXXXX\<close> escape of a high surrogate that is
  followed by the \<^verbatim>\<open>\uXXXX\<close> escape of a low surrogate is decoded, together with it, to
  one code point above \<open>0xFFFF\<close>.
\<close>

definition escape :: "pystr \<Rightarrow> (nat \<times> pystr) option" where
  "escape cs =
     (case cs of
        [] \<Rightarrow> None
      | esc # es \<Rightarrow>
          if esc \<noteq> 117 then
            (case BACKSLASH esc of None \<Rightarrow> None | Some ch \<Rightarrow> Some (ch, es))
          else
            (case decode_uXXXX es of
               None \<Rightarrow> None
             | Some uni \<Rightarrow>
                 if high_surrogate uni \<and> take 2 (drop 4 es) = [92, 117] then
                   (case decode_uXXXX (drop 6 es) of
                      None \<Rightarrow> None
                    | Some uni2 \<Rightarrow>
                        if low_surrogate uni2 then
                          Some (0x10000 + (push_bit 10 (uni - 0xd800) OR (uni2 - 0xdc00)),
                                drop 10 es)
                        else Some (uni, drop 4 es))
                 else Some (uni, drop 4 es)))"

text \<open>
  \<^verbatim>\<open>scanstring\<close>, started after the opening quote: the decoded string and the text after
  the closing quote.  A control character inside the string is an error.
\<close>

function scanstring :: "pystr \<Rightarrow> (pystr \<times> pystr) option" where
  "scanstring [] = None"
| "scanstring (c # cs) =
     (if c = 34 then Some ([], cs)
      else if c \<noteq> 92 then
        (if c < 0x20 then None else prepend c (scanstring cs))
      else
        (case escape cs of
           None \<Rightarrow> None
         | Some (ch, rest) \<Rightarrow> prepend ch (scanstring rest)))"
  by pat_completeness auto
termination
proof (relation "measure length")
  show "wf (measure length)"
    by simp
next
  fix c :: nat and cs :: pystr
  show "(cs, c # cs) \<in> measure length"
    by simp
next
  fix c ch :: nat and cs rest :: pystr and x2
  assume "escape cs = Some x2" and "(ch, rest) = x2"
  then have "escape cs = Some (ch, rest)"
    by simp
  then have "length rest \<le> length cs"
    unfolding escape_def
    by (cases cs) (auto split: if_splits option.splits)
  then show "(rest, c # cs) \<in> measure length"
    by simp
qed

declare scanstring.simps [simp del]

text \<open>\<^verbatim>\<open>WHITESPACE = re.compile(r'[ \t\n\r]*')\<close>; \<open>skip_ws\<close> is the text after the match.\<close>

definition WHITESPACE :: "nat \<Rightarrow> bool" where
  "WHITESPACE c = (c = 32 \<or> c = 9 \<or> c = 10 \<or> c = 13)"

definition skip_ws :: "pystr \<Rightarrow> pystr" where
  "skip_ws s = dropWhile WHITESPACE s"

definition expect :: "nat \<Rightarrow> pystr \<Rightarrow> pystr option" where
  "expect c s = (case s of [] \<Rightarrow> None | x # xs \<Rightarrow> if x = c then Some xs else None)"

text \<open>
  One member of an object, read from after the opening quote of its name: the name, a
  colon, and a value that is a string, with white space allowed around the colon.
\<close>

definition member :: "pystr \<Rightarrow> ((pystr \<times> pystr) \<times> pystr) option" where
  "member s =
     (case scanstring s of
        None \<Rightarrow> None
      | Some (key, s1) \<Rightarrow>
          (case expect 58 (skip_ws s1) of
             None \<Rightarrow> None
           | Some s2 \<Rightarrow>
               (case expect 34 (skip_ws s2) of
                  None \<Rightarrow> None
                | Some s3 \<Rightarrow>
                    (case scanstring s3 of
                       None \<Rightarrow> None
                     | Some (val, s4) \<Rightarrow> Some ((key, val), s4)))))"

text \<open>
  After a member: a closing brace ends the object; a comma must be followed, after
  white space, by the opening quote of the next name.  \<open>Inl r\<close> is the end of the object
  with the text \<open>r\<close> after the brace, \<open>Inr s\<close> the text after the quote of the next name.
\<close>

definition after_member :: "pystr \<Rightarrow> (pystr + pystr) option" where
  "after_member s =
     (case skip_ws s of
        [] \<Rightarrow> None
      | nextchar # s5 \<Rightarrow>
          if nextchar = 125 then Some (Inl s5)
          else if nextchar \<noteq> 44 then None
          else map_option Inr (expect 34 (skip_ws s5)))"

definition add_pair ::
  "pystr \<times> pystr \<Rightarrow> (pydict \<times> pystr) option \<Rightarrow> (pydict \<times> pystr) option" where
  "add_pair kv res = (case res of None \<Rightarrow> None | Some (pairs, r) \<Rightarrow> Some (kv # pairs, r))"

text \<open>
  The loop of \<^verbatim>\<open>JSONObject\<close>, started after the opening quote of the first name: the
  pairs of the object in the order of the text, and the text after the closing brace.
\<close>

function members :: "pystr \<Rightarrow> (pydict \<times> pystr) option" where
  "members s =
     (case member s of
        None \<Rightarrow> None
      | Some (kv, s4) \<Rightarrow>
          (case after_member s4 of
             None \<Rightarrow> None
           | Some (Inl r) \<Rightarrow> Some ([kv], r)
           | Some (Inr s6) \<Rightarrow> add_pair kv (members s6)))"
  by pat_completeness auto
termination
proof (relation "measure length")
  show "wf (measure length)"
    by simp
next
  fix s :: pystr and x2 kv s4 x2a s6
  assume m: "member s = Some x2" "(kv, s4) = x2"
    and a: "after_member s4 = Some x2a" "x2a = Inr s6"
  have esc: "length r \<le> length u" if "escape u = Some (ch, r)" for u ch r
    using that unfolding escape_def
    by (cases u) (auto split: if_splits option.splits)
  have scan: "length r < length u" if "scanstring u = Some (t, r)" for u t r
    using that
  proof (induction u arbitrary: t rule: scanstring.induct)
    case 1
    then show ?case
      by (simp add: scanstring.simps)
  next
    case (2 c cs)
    show ?case
    proof (cases "c = 34")
      case True
      with "2.prems" show ?thesis
        by (simp add: scanstring.simps)
    next
      case quote: False
      show ?thesis
      proof (cases "c = 92")
        case False
        with quote "2.prems" obtain t' where "\<not> c < 0x20" "scanstring cs = Some (t', r)"
          by (auto simp: scanstring.simps prepend_def split: if_splits option.splits)
        with quote False "2.IH"(1) have "length r < length cs"
          by simp
        then show ?thesis
          by simp
      next
        case True
        with quote "2.prems" obtain ch rest t'
          where e: "escape cs = Some (ch, rest)" and s: "scanstring rest = Some (t', r)"
          by (auto simp: scanstring.simps prepend_def split: option.splits)
        from quote True e s "2.IH"(2) have "length r < length rest"
          by simp
        with esc [OF e] show ?thesis
          by simp
      qed
    qed
  qed
  have ws: "length (skip_ws u) \<le> length u" for u
    by (simp add: skip_ws_def length_dropWhile_le)
  have ex: "length r < length u" if "expect c u = Some r" for c u r
    using that by (auto simp: expect_def split: list.splits if_splits)
  from m have "member s = Some (kv, s4)"
    by simp
  then obtain key s1 s2 s3 val
    where p: "scanstring s = Some (key, s1)" "expect 58 (skip_ws s1) = Some s2"
      "expect 34 (skip_ws s2) = Some s3" "scanstring s3 = Some (val, s4)"
    unfolding member_def by (auto split: option.splits prod.splits)
  have "length s4 < length s"
    using scan [OF p(1)] ex [OF p(2)] ex [OF p(3)] scan [OF p(4)] ws [of s1] ws [of s2]
    by linarith
  moreover from a have "after_member s4 = Some (Inr s6)"
    by simp
  then obtain c s5 where q: "skip_ws s4 = c # s5" "expect 34 (skip_ws s5) = Some s6"
    unfolding after_member_def by (auto split: list.splits if_splits)
  have "length s6 < length s4"
    using ex [OF q(2)] ws [of s5] ws [of s4] q(1)
    by simp
  ultimately show "(s6, s) \<in> measure length"
    by simp
qed

declare members.simps [simp del]

definition JSONObject :: "pystr \<Rightarrow> (pydict \<times> pystr) option" where
  "JSONObject s =
     (case skip_ws s of
        [] \<Rightarrow> None
      | nextchar # s1 \<Rightarrow>
          if nextchar = 125 then Some ([], s1)
          else if nextchar = 34 then members s1
          else None)"

text \<open>
  \<^verbatim>\<open>d[k] = v\<close> on a dict, and \<^verbatim>\<open>dict(pairs)\<close>: a key that is present keeps its place and
  takes the new value, a new key goes to the end.
\<close>

fun setitem :: "pydict \<Rightarrow> pystr \<Rightarrow> pystr \<Rightarrow> pydict" where
  "setitem [] k v = [(k, v)]"
| "setitem ((k', v') # d) k v = (if k' = k then (k, v) # d else (k', v') # setitem d k v)"

definition dict_of_pairs :: "pydict \<Rightarrow> pydict" where
  "dict_of_pairs pairs = foldl (\<lambda>d kv. setitem d (fst kv) (snd kv)) [] pairs"

definition json_loads :: "pystr \<Rightarrow> pydict option" where
  "json_loads s =
     (if take 1 s = [0xfeff] then None
      else
        (case expect 123 (skip_ws s) of
           None \<Rightarrow> None
         | Some s1 \<Rightarrow>
             (case JSONObject s1 of
                None \<Rightarrow> None
              | Some (pairs, s2) \<Rightarrow>
                  if skip_ws s2 = [] then Some (dict_of_pairs pairs) else None)))"

text \<open>
  A string in which no high surrogate is immediately followed by a low surrogate.
  Every string of Unicode scalar values (every text that has a UTF-8 encoding) is one.
\<close>

fun no_surrogate_pair :: "pystr \<Rightarrow> bool" where
  "no_surrogate_pair [] = True"
| "no_surrogate_pair [c] = True"
| "no_surrogate_pair (c # d # s) =
     (\<not> (high_surrogate c \<and> low_surrogate d) \<and> no_surrogate_pair (d # s))"

text \<open>
  A text that begins with a \<^verbatim>\<open>\uXXXX\<close> escape which \<open>escape\<close>, coming from a high
  surrogate, would not leave alone: the escape of a low surrogate, or a malformed one.
\<close>

definition low_escape :: "pystr \<Rightarrow> bool" where
  "low_escape s =
     (take 2 s = [92, 117] \<and>
      (case decode_uXXXX (drop 2 s) of None \<Rightarrow> True | Some u \<Rightarrow> low_surrogate u))"

definition roundtrip_item :: "pystr \<times> pystr \<Rightarrow> bool" where
  "roundtrip_item kv =
     (is_str (fst kv) \<and> is_str (snd kv) \<and>
      no_surrogate_pair (fst kv) \<and> no_surrogate_pair (snd kv))"

section \<open>The outside world: requests.post and print\<close>

text \<open>
  What a script passes to \<^verbatim>\<open>requests.post(url, data=..., headers=...)\<close> is recorded as a
  request.  The headers are the dict the caller passes.
\<close>

datatype http_method = GET | POST

record request =
  http_method :: http_method
  url :: pystr
  data :: pystr
  headers :: pydict

text \<open>
  The object \<^verbatim>\<open>requests.post\<close> returns: the scripts read \<^verbatim>\<open>status_code\<close>, a Python int,
  and \<^verbatim>\<open>text\<close> (here \<open>text_of\<close>), the body as a string.
\<close>

record response =
  status_code :: int
  text_of :: pystr

text \<open>
  A raised exception, with the text \<^verbatim>\<open>str(e)\<close> that an f-string prints for it.  The clause
  \<^verbatim>\<open>except Exception\<close> catches the instances of \<^verbatim>\<open>Exception\<close> and of its subclasses, among
  them every exception of the requests library; it does not catch an exception that
  derives from \<^verbatim>\<open>BaseException\<close> only, such as \<^verbatim>\<open>KeyboardInterrupt\<close>.
\<close>

datatype exn = ExceptionInstance pystr | BaseExceptionOnly pystr

text \<open>
  The network is a parameter of a run: it answers a request either with an exception or
  with a response.
\<close>

type_synonym net = "request \<Rightarrow> exn + response"

text \<open>
  The observable effects of a run: the calls of \<^verbatim>\<open>requests.post\<close> in the order they were
  made, and the arguments of the calls of \<^verbatim>\<open>print\<close> in order; each call of \<^verbatim>\<open>print\<close>
  writes its argument and a newline to standard output.  Standard output is taken to
  accept every string, so that \<^verbatim>\<open>print\<close> itself does not raise.
\<close>

record world =
  sent :: "request list"
  stdout :: "pystr list"

definition world0 :: world where
  "world0 = \<lparr>sent = [], stdout = []\<rparr>"

definition requests_post ::
  "net \<Rightarrow> pystr \<Rightarrow> pystr \<Rightarrow> pydict \<Rightarrow> world \<Rightarrow> (exn + response) \<times> world" where
  "requests_post nw u d h w =
     (let rq = \<lparr>http_method = POST, url = u, data = d, headers = h\<rparr>
      in (nw rq, w\<lparr>sent := sent w @ [rq]\<rparr>))"

definition print :: "pystr \<Rightarrow> world \<Rightarrow> world" where
  "print s w = w\<lparr>stdout := stdout w @ [s]\<rparr>"

text \<open>
  How the process ends: normally, with exit status 0, or with an exception that no
  handler caught.
\<close>

datatype exit = Normal | Unhandled exn

section \<open>test-chat-api.py\<close>

definition url_chat_api :: pystr where
  "url_chat_api = lit ''http://localhost:5130/api/chat''"

definition payload_chat_api :: pydict where
  "payload_chat_api =
     [(lit ''userId'', lit ''user-123''),
      (lit ''message'', lit ''Hello, this is a test message to verify IMessage conversion''),
      (lit ''systemPrompt'', lit ''You are a helpful assistant.'')]"

definition headers_chat_api :: pydict where
  "headers_chat_api = [(lit ''Content-Type'', lit ''application/json'')]"

definition test_chat_api :: "net \<Rightarrow> world \<Rightarrow> exit \<times> world" where
  "test_chat_api nw w =
     (case requests_post nw url_chat_api (json_dumps payload_chat_api) headers_chat_api w of
        (Inr response, w1) \<Rightarrow>
          let w2 = print (lit ''Status Code: '' @ str_int (status_code response)) w1;
              w3 = print (lit ''Response: '' @ text_of response) w2
          in (Normal, w3)
      | (Inl (ExceptionInstance e), w1) \<Rightarrow> (Normal, print (lit ''Error: '' @ e) w1)
      | (Inl (BaseExceptionOnly e), w1) \<Rightarrow> (Unhandled (BaseExceptionOnly e), w1))"

section \<open>test-imessage-conversion.py\<close>

definition url_imessage_conversion :: pystr where
  "url_imessage_conversion = lit ''http://localhost:5130/api/chat''"

definition payload_imessage_conversion :: pydict where
  "payload_imessage_conversion =
     [(lit ''message'', lit ''Hello, this is a test message to verify IMessage conversion''),
      (lit ''conversationId'', lit ''test-conversation-456'')]"

definition headers_imessage_conversion :: pydict where
  "headers_imessage_conversion = [(lit ''Content-Type'', lit ''application/json'')]"

definition test_imessage_conversion :: "net \<Rightarrow> world \<Rightarrow> exit \<times> world" where
  "test_imessage_conversion nw w =
     (case requests_post nw url_imessage_conversion (json_dumps payload_imessage_conversion)
             headers_imessage_conversion w of
        (Inr response, w1) \<Rightarrow>
          let w2 = print (lit ''Status Code: '' @ str_int (status_code response)) w1;
              w3 = print (lit ''Response: '' @ text_of response) w2
          in (Normal, w3)
      | (Inl (ExceptionInstance e), w1) \<Rightarrow> (Normal, print (lit ''Error: '' @ e) w1)
      | (Inl (BaseExceptionOnly e), w1) \<Rightarrow> (Unhandled (BaseExceptionOnly e), w1))"

text \<open>The request each script hands to \<^verbatim>\<open>requests.post\<close>.\<close>

definition request_chat_api :: request where
  "request_chat_api =
     \<lparr>http_method = POST, url = url_chat_api, data = json_dumps payload_chat_api,
      headers = headers_chat_api\<rparr>"

definition request_imessage_conversion :: request where
  "request_imessage_conversion =
     \<lparr>http_method = POST, url = url_imessage_conversion,
      data = json_dumps payload_imessage_conversion, headers = headers_imessage_conversion\<rparr>"

section \<open>The one-shot request sender of the specification\<close>

text \<open>
  The specification describes one component: given a payload, send it once as the JSON
  body of a POST to the fixed URL with the fixed content-type header, then report the
  outcome, either the status code and the response text or the error message.  A
  failure that \<^verbatim>\<open>except Exception\<close> does not catch ends the process.
\<close>

definition sender_url :: pystr where
  "sender_url = lit ''http://localhost:5130/api/chat''"

definition sender_headers :: pydict where
  "sender_headers = [(lit ''Content-Type'', lit ''application/json'')]"

definition sender_request :: "pydict \<Rightarrow> request" where
  "sender_request payload =
     \<lparr>http_method = POST, url = sender_url, data = json_dumps payload,
      headers = sender_headers\<rparr>"

fun report :: "exn + response \<Rightarrow> exit \<times> pystr list" where
  "report (Inr response) =
     (Normal,
      [lit ''Status Code: '' @ str_int (status_code response),
       lit ''Response: '' @ text_of response])"
| "report (Inl (ExceptionInstance e)) = (Normal, [lit ''Error: '' @ e])"
| "report (Inl (BaseExceptionOnly e)) = (Unhandled (BaseExceptionOnly e), [])"

definition one_shot_sender :: "pydict \<Rightarrow> net \<Rightarrow> world \<Rightarrow> exit \<times> world" where
  "one_shot_sender payload nw w =
     (let rq = sender_request payload; outcome = report (nw rq)
      in (fst outcome, \<lparr>sent = sent w @ [rq], stdout = stdout w @ snd outcome\<rparr>))"

section \<open>Hexadecimal escapes\<close>

lemma hexval_hexdigit: "d < 16 \<Longrightarrow> hexval (hexdigit d) = Some d"
  by (simp add: hexval_def hexdigit_def)

lemma hex_small: "n < 16 \<Longrightarrow> hex n = [hexdigit n]"
  by (subst hex.simps) simp

lemma hex_large: "\<not> n < 16 \<Longrightarrow> hex n = hex (n div 16) @ [hexdigit (n mod 16)]"
  by (subst hex.simps) simp

lemma hexdigit_0: "hexdigit 0 = 48"
  by (simp add: hexdigit_def)

lemma replicate_48: "replicate 3 x = [x, x, x]" "replicate 2 x = [x, x]"
  by (simp_all add: numeral_3_eq_3 numeral_2_eq_2)

lemma format_04x_eq:
  assumes "n < 65536"
  shows "format_04x n =
    [hexdigit (n div 16 div 16 div 16), hexdigit (n div 16 div 16 mod 16),
     hexdigit (n div 16 mod 16), hexdigit (n mod 16)]"
proof -
  consider "n < 16" | "16 \<le> n" "n < 256" | "256 \<le> n" "n < 4096" | "4096 \<le> n"
    by linarith
  then show ?thesis
  proof cases
    case 1
    then show ?thesis
      by (simp add: format_04x_def hex_small hexdigit_0 replicate_48)
  next
    case 2
    then have "hex n = [hexdigit (n div 16), hexdigit (n mod 16)]"
      by (simp add: hex_large hex_small)
    with 2 show ?thesis
      by (simp add: format_04x_def hexdigit_0 replicate_48)
  next
    case 3
    then have "hex n = [hexdigit (n div 16 div 16), hexdigit (n div 16 mod 16), hexdigit (n mod 16)]"
      by (simp add: hex_large hex_small)
    with 3 show ?thesis
      by (simp add: format_04x_def hexdigit_0)
  next
    case 4
    with assms have "hex n = [hexdigit (n div 16 div 16 div 16), hexdigit (n div 16 div 16 mod 16), hexdigit (n div 16 mod 16), hexdigit (n mod 16)]"
      by (simp add: hex_large hex_small)
    with 4 show ?thesis
      by (simp add: format_04x_def)
  qed
qed

lemma decode_format:
  assumes "n < 65536"
  shows "decode_uXXXX (format_04x n @ r) = Some n"
proof -
  have "n div 16 div 16 div 16 < 16"
    using assms by simp
  then show ?thesis
    by (simp add: format_04x_eq [OF assms] decode_uXXXX_def hexval_hexdigit)
qed

section \<open>Scanning an encoded string\<close>

lemma or_push_take: "push_bit m a OR take_bit m b = push_bit m a + take_bit m (b::nat)"
proof -
  have "push_bit m a AND take_bit m b = 0"
    by (rule bit_eqI) (auto simp: bit_and_iff bit_push_bit_iff bit_take_bit_iff)
  then show ?thesis
    by (simp add: disjunctive_add_eq_or)
qed

lemma and_3ff: "x AND 0x3ff = take_bit 10 (x::nat)"
  by (simp add: take_bit_eq_mask mask_eq_exp_minus_1)

lemma high_part:
  assumes "(n::nat) < 0x100000"
  shows "0xd800 OR (drop_bit 10 n AND 0x3ff) = 0xd800 + n div 1024"
proof -
  have "n div 1024 < 1024"
    using assms by simp
  then have "take_bit 10 (n div 1024) = n div 1024"
    by (simp add: take_bit_nat_eq_self)
  moreover have "(0xd800::nat) = push_bit 10 54"
    by (simp add: push_bit_eq_mult)
  ultimately show ?thesis
    using or_push_take [of 10 54 "n div 1024"]
    by (simp add: and_3ff drop_bit_eq_div)
qed

lemma low_part: "0xdc00 OR (n AND 0x3ff) = 0xdc00 + n mod 1024" for n :: nat
proof -
  have "(0xdc00::nat) = push_bit 10 55"
    by (simp add: push_bit_eq_mult)
  then show ?thesis
    using or_push_take [of 10 55 n]
    by (simp add: and_3ff take_bit_eq_mod)
qed

lemma join_parts: "push_bit 10 (n div 1024) OR n mod 1024 = n" for n :: nat
  using or_push_take [of 10 "n div 1024" n]
  by (simp add: take_bit_eq_mod push_bit_eq_mult)

lemma encode_char_cases:
  assumes "c < 0x110000"
  shows "(\<not> ESCAPE_ASCII c \<and> encode_char c = [c]) \<or>
         (\<exists>e. encode_char c = [92, e] \<and> e \<noteq> 117 \<and> BACKSLASH e = Some c) \<or>
         (c < 0x10000 \<and> encode_char c = 92 # 117 # format_04x c) \<or>
         (0x10000 \<le> c \<and>
          encode_char c =
            92 # 117 # format_04x (0xd800 + (c - 0x10000) div 1024) @
            92 # 117 # format_04x (0xdc00 + (c - 0x10000) mod 1024))"
proof (cases "ESCAPE_ASCII c")
  case False
  then show ?thesis
    by (simp add: encode_char_def)
next
  case True
  show ?thesis
  proof (cases "c \<in> {92, 34, 8, 12, 10, 13, 9}")
    case True
    then show ?thesis
      by (auto simp: encode_char_def ESCAPE_ASCII_def replace_def ESCAPE_DCT_def BACKSLASH_def)
  next
    case short: False
    show ?thesis
    proof (cases "c < 0x10000")
      case True
      with short \<open>ESCAPE_ASCII c\<close> have "encode_char c = 92 # 117 # format_04x c"
        by (simp add: encode_char_def replace_def ESCAPE_DCT_def)
      with True show ?thesis
        by simp
    next
      case False
      with assms have "c - 0x10000 < 0x100000"
        by simp
      with False short \<open>ESCAPE_ASCII c\<close> show ?thesis
        by (simp add: encode_char_def replace_def ESCAPE_DCT_def high_part low_part Let_def)
    qed
  qed
qed


lemma escape_short: "e \<noteq> 117 \<Longrightarrow> BACKSLASH e = Some c \<Longrightarrow> escape (e # T) = Some (c, T)"
  by (simp add: escape_def)

lemma length_format: "n < 65536 \<Longrightarrow> length (format_04x n) = 4"
  by (simp add: format_04x_eq)

lemma escape_single:
  assumes "c < 0x10000" "high_surrogate c \<longrightarrow> \<not> low_escape T"
  shows "escape (117 # format_04x c @ T) = Some (c, T)"
proof (cases "high_surrogate c \<and> take 2 T = [92, 117]")
  case False
  with assms(1) show ?thesis
    by (auto simp: escape_def decode_format length_format)
next
  case True
  with assms(2) obtain u where "decode_uXXXX (drop 2 T) = Some u" "\<not> low_surrogate u"
    by (auto simp: low_escape_def split: option.splits)
  moreover have "drop 6 (format_04x c @ T) = drop 2 T"
    using assms(1) by (simp add: format_04x_eq)
  ultimately show ?thesis
    using assms(1) True by (simp add: escape_def decode_format length_format)
qed

lemma escape_pair:
  assumes "0x10000 \<le> c" "c < 0x110000"
  shows "escape (117 # format_04x (0xd800 + (c - 0x10000) div 1024) @
            92 # 117 # format_04x (0xdc00 + (c - 0x10000) mod 1024) @ T) = Some (c, T)"
proof -
  define n where "n = c - 0x10000"
  define s1 where "s1 = 0xd800 + n div 1024"
  define s2 where "s2 = 0xdc00 + n mod 1024"
  have n: "n < 0x100000" "c = 0x10000 + n"
    using assms by (simp_all add: n_def)
  then have "n div 1024 < 1024"
    by simp
  then have s1: "s1 < 65536" "high_surrogate s1" "s1 - 0xd800 = n div 1024"
    by (simp_all add: s1_def high_surrogate_def)
  have s2: "s2 < 65536" "low_surrogate s2" "s2 - 0xdc00 = n mod 1024"
    by (simp_all add: s2_def low_surrogate_def)
  let ?rest = "92 # 117 # format_04x s2 @ T"
  have 1: "decode_uXXXX (format_04x s1 @ ?rest) = Some s1"
    using s1(1) by (rule decode_format)
  have 2: "take 2 (drop 4 (format_04x s1 @ ?rest)) = [92, 117]"
    using s1(1) by (simp add: format_04x_eq)
  have 3: "drop 6 (format_04x s1 @ ?rest) = format_04x s2 @ T"
    using s1(1) by (simp add: format_04x_eq)
  have 4: "drop 10 (format_04x s1 @ ?rest) = T"
    using s1(1) s2(1) by (simp add: format_04x_eq)
  have 5: "decode_uXXXX (format_04x s2 @ T) = Some s2"
    using s2(1) by (rule decode_format)
  have "escape (117 # format_04x s1 @ ?rest) = Some (c, T)"
    unfolding escape_def
    by (simp add: 1 2 3 4 5 s1 s2 join_parts n(2) del: drop_append take_append)
  then show ?thesis
    by (simp add: s1_def s2_def n_def)
qed

lemma scan_encode_char:
  assumes "c < 0x110000" "high_surrogate c \<longrightarrow> \<not> low_escape T"
  shows "scanstring (encode_char c @ T) = prepend c (scanstring T)"
  using encode_char_cases [OF assms(1)]
proof (elim disjE conjE exE)
  assume "\<not> ESCAPE_ASCII c" "encode_char c = [c]"
  then show ?thesis
    by (simp add: scanstring.simps ESCAPE_ASCII_def)
next
  fix e
  assume "encode_char c = [92, e]" "e \<noteq> 117" "BACKSLASH e = Some c"
  then show ?thesis
    by (simp add: scanstring.simps escape_short)
next
  assume "c < 0x10000" "encode_char c = 92 # 117 # format_04x c"
  with assms(2) show ?thesis
    by (simp add: scanstring.simps escape_single)
next
  assume "0x10000 \<le> c"
    "encode_char c =
       92 # 117 # format_04x (0xd800 + (c - 0x10000) div 1024) @
       92 # 117 # format_04x (0xdc00 + (c - 0x10000) mod 1024)"
  with assms(1) show ?thesis
    by (simp add: scanstring.simps escape_pair)
qed

lemma low_escape_encode_char:
  assumes "d < 0x110000" "low_escape (encode_char d @ T)"
  shows "low_surrogate d"
  using encode_char_cases [OF assms(1)]
proof (elim disjE conjE exE)
  assume "\<not> ESCAPE_ASCII d" "encode_char d = [d]"
  with assms(2) show ?thesis
    by (simp add: low_escape_def ESCAPE_ASCII_def)
next
  fix e
  assume "encode_char d = [92, e]" "e \<noteq> 117" "BACKSLASH e = Some d"
  with assms(2) show ?thesis
    by (simp add: low_escape_def)
next
  assume "d < 0x10000" "encode_char d = 92 # 117 # format_04x d"
  with assms(2) show ?thesis
    by (simp add: low_escape_def decode_format)
next
  assume *: "0x10000 \<le> d"
    "encode_char d =
       92 # 117 # format_04x (0xd800 + (d - 0x10000) div 1024) @
       92 # 117 # format_04x (0xdc00 + (d - 0x10000) mod 1024)"
  from assms(1) have "(d - 0x10000) div 1024 < 1024"
    by simp
  then have "0xd800 + (d - 0x10000) div 1024 < 0xdc00"
    by simp
  with * assms(2) show ?thesis
    by (simp add: low_escape_def decode_format low_surrogate_def)
qed

lemma scan_body:
  assumes "is_str s" "no_surrogate_pair s"
  shows "scanstring (concat (map encode_char s) @ 34 # r) = Some (s, r)"
  using assms
proof (induction s rule: no_surrogate_pair.induct)
  case 1
  then show ?case
    by (simp add: scanstring.simps)
next
  case (2 c)
  then have "c < 0x110000"
    by (simp add: is_str_def)
  moreover have "\<not> low_escape (34 # r)"
    by (simp add: low_escape_def)
  ultimately have "scanstring (encode_char c @ 34 # r) = prepend c (scanstring (34 # r))"
    by (intro scan_encode_char) simp_all
  then show ?case
    by (simp add: scanstring.simps prepend_def)
next
  case (3 c d s)
  let ?T = "concat (map encode_char (d # s)) @ 34 # r"
  from "3.prems" have c: "c < 0x110000" and d: "d < 0x110000" and rest: "is_str (d # s)"
    by (simp_all add: is_str_def)
  from "3.prems" have pair: "\<not> (high_surrogate c \<and> low_surrogate d)"
    and nsp: "no_surrogate_pair (d # s)"
    by simp_all
  have "high_surrogate c \<longrightarrow> \<not> low_escape ?T"
    using pair low_escape_encode_char [OF d, of "concat (map encode_char s) @ 34 # r"]
    by auto
  with c have "scanstring (encode_char c @ ?T) = prepend c (scanstring ?T)"
    by (rule scan_encode_char)
  also have "scanstring ?T = Some (d # s, r)"
    using rest nsp by (rule "3.IH")
  finally show ?case
    by (simp add: prepend_def)
qed

section \<open>Parsing an encoded object\<close>

lemma skip_ws_keep: "\<not> WHITESPACE c \<Longrightarrow> skip_ws (c # s) = c # s"
  by (simp add: skip_ws_def)

lemma skip_ws_space: "skip_ws (32 # s) = skip_ws s"
  by (simp add: skip_ws_def WHITESPACE_def)

lemma encode_item_eq:
  "encode_item (k, v) =
     34 # concat (map encode_char k) @ 34 # 58 # 32 # 34 # concat (map encode_char v) @ [34]"
  by (simp add: encode_item_def encode_basestring_ascii_def key_separator_def lit_def)

lemma member_encode_item:
  assumes "roundtrip_item (k, v)"
  shows "member (tl (encode_item (k, v)) @ r) = Some ((k, v), r)"
proof -
  from assms have k: "is_str k" "no_surrogate_pair k" and v: "is_str v" "no_surrogate_pair v"
    by (simp_all add: roundtrip_item_def)
  have 1: "scanstring (concat (map encode_char k) @
             34 # 58 # 32 # 34 # concat (map encode_char v) @ 34 # r) =
           Some (k, 58 # 32 # 34 # concat (map encode_char v) @ 34 # r)"
    using k by (rule scan_body)
  have 2: "scanstring (concat (map encode_char v) @ 34 # r) = Some (v, r)"
    using v by (rule scan_body)
  show ?thesis
    by (simp add: encode_item_eq member_def 1 2 skip_ws_keep skip_ws_space WHITESPACE_def
        expect_def)
qed

lemma join_encode_items:
  "join item_separator (encode_item p # xs) =
     34 # tl (join item_separator (encode_item p # xs))"
  by (cases p; cases xs) (simp_all add: encode_item_eq)

lemma tl_join_encode_items:
  "tl (join item_separator (encode_item p # encode_item q # xs)) =
     tl (encode_item p) @ 44 # 32 # 34 # tl (join item_separator (encode_item q # xs))"
proof -
  have "tl (join item_separator (encode_item p # encode_item q # xs)) =
      tl (encode_item p) @ 44 # 32 # join item_separator (encode_item q # xs)"
    by (cases p) (simp add: encode_item_eq item_separator_def lit_def)
  then show ?thesis
    by (subst (asm) join_encode_items) simp
qed

lemma members_join:
  assumes "list_all roundtrip_item (p # d)"
  shows "members (tl (join item_separator (encode_item p # map encode_item d)) @ 125 # r) =
           Some (p # d, r)"
  using assms
proof (induction d arbitrary: p)
  case Nil
  obtain k v where p: "p = (k, v)"
    by (cases p)
  with Nil have "member (tl (encode_item p) @ 125 # r) = Some (p, 125 # r)"
    by (simp add: member_encode_item)
  then show ?case
    by (subst members.simps)
      (simp add: after_member_def skip_ws_keep WHITESPACE_def)
next
  case (Cons q d)
  obtain k v where p: "p = (k, v)"
    by (cases p)
  let ?J = "join item_separator (encode_item q # map encode_item d)"
  from Cons.prems p
  have m: "member (tl (encode_item p) @ 44 # 32 # 34 # tl ?J @ 125 # r) =
        Some (p, 44 # 32 # 34 # tl ?J @ 125 # r)"
    by (simp add: member_encode_item)
  have a: "after_member (44 # 32 # 34 # tl ?J @ 125 # r) = Some (Inr (tl ?J @ 125 # r))"
    by (simp add: after_member_def skip_ws_keep skip_ws_space WHITESPACE_def expect_def)
  from Cons.prems have "members (tl ?J @ 125 # r) = Some (q # d, r)"
    by (intro Cons.IH) simp
  then have "members (tl (encode_item p) @ 44 # 32 # 34 # tl ?J @ 125 # r) =
      Some (p # q # d, r)"
    by (subst members.simps) (simp add: m a add_pair_def)
  then show ?case
    by (simp add: tl_join_encode_items del: join.simps)
qed

lemma JSONObject_join:
  assumes "list_all roundtrip_item d"
  shows "JSONObject (join item_separator (map encode_item d) @ 125 # r) = Some (d, r)"
proof (cases d)
  case Nil
  then show ?thesis
    by (simp add: JSONObject_def skip_ws_keep WHITESPACE_def)
next
  case (Cons p d')
  let ?J = "join item_separator (encode_item p # map encode_item d')"
  have "JSONObject (34 # tl ?J @ 125 # r) = Some (p # d', r)"
    using assms Cons members_join [of p d' r]
    by (simp add: JSONObject_def skip_ws_keep WHITESPACE_def)
  moreover have "?J = 34 # tl ?J"
    by (rule join_encode_items)
  ultimately have "JSONObject (?J @ 125 # r) = Some (p # d', r)"
    by (metis append_Cons)
  then show ?thesis
    by (simp add: Cons)
qed

lemma setitem_new: "k \<notin> fst ` set d \<Longrightarrow> setitem d k v = d @ [(k, v)]"
  by (induction d) auto

lemma foldl_setitem:
  "distinct (map fst (acc @ ps)) \<Longrightarrow>
   foldl (\<lambda>d kv. setitem d (fst kv) (snd kv)) acc ps = acc @ ps"
proof (induction ps arbitrary: acc)
  case Nil
  then show ?case
    by simp
next
  case (Cons p ps)
  from Cons.prems have "fst p \<notin> fst ` set acc"
    by auto
  then have "setitem acc (fst p) (snd p) = acc @ [p]"
    by (simp add: setitem_new)
  moreover from Cons.prems have "distinct (map fst ((acc @ [p]) @ ps))"
    by simp
  ultimately show ?case
    using Cons.IH [of "acc @ [p]"] by simp
qed

lemma dict_of_pairs_dict: "is_dict d \<Longrightarrow> dict_of_pairs d = d"
  using foldl_setitem [of "[]" d] by (simp add: dict_of_pairs_def is_dict_def)

lemma loads_dumps:
  assumes "is_dict d" "list_all roundtrip_item d"
  shows "json_loads (json_dumps d) = Some d"
proof -
  have "JSONObject (join item_separator (map encode_item d) @ 125 # []) = Some (d, [])"
    using assms(2) by (rule JSONObject_join)
  then show ?thesis
    using assms(1)
    by (simp add: json_loads_def json_dumps_def skip_ws_keep WHITESPACE_def expect_def
        dict_of_pairs_dict skip_ws_def)
qed

section \<open>What a run of each script does\<close>

lemma test_chat_api_run:
  "test_chat_api nw w =
     (fst (report (nw request_chat_api)),
      \<lparr>sent = sent w @ [request_chat_api],
       stdout = stdout w @ snd (report (nw request_chat_api))\<rparr>)"
proof (cases "nw request_chat_api")
  case (Inl x)
  then show ?thesis
    by (cases x)
      (simp_all add: test_chat_api_def requests_post_def print_def request_chat_api_def)
next
  case (Inr r)
  then show ?thesis
    by (simp add: test_chat_api_def requests_post_def print_def request_chat_api_def)
qed

lemma test_imessage_conversion_run:
  "test_imessage_conversion nw w =
     (fst (report (nw request_imessage_conversion)),
      \<lparr>sent = sent w @ [request_imessage_conversion],
       stdout = stdout w @ snd (report (nw request_imessage_conversion))\<rparr>)"
proof (cases "nw request_imessage_conversion")
  case (Inl x)
  then show ?thesis
    by (cases x)
      (simp_all add: test_imessage_conversion_def requests_post_def print_def
        request_imessage_conversion_def)
next
  case (Inr r)
  then show ?thesis
    by (simp add: test_imessage_conversion_def requests_post_def print_def
        request_imessage_conversion_def)
qed

lemma ascii_roundtrip: "list_all (\<lambda>c. c < 128) s \<Longrightarrow> is_str s \<and> no_surrogate_pair s"
proof (induction s rule: no_surrogate_pair.induct)
  case 1
  then show ?case
    by (simp add: is_str_def)
next
  case (2 c)
  then show ?case
    by (simp add: is_str_def)
next
  case (3 c d s)
  then show ?case
    by (simp add: is_str_def high_surrogate_def)
qed

lemma payload_chat_api_dict: "is_dict payload_chat_api"
  by (simp add: is_dict_def payload_chat_api_def lit_def)

lemma payload_imessage_conversion_dict: "is_dict payload_imessage_conversion"
  by (simp add: is_dict_def payload_imessage_conversion_def lit_def)

lemma payload_chat_api_ascii:
  "list_all (\<lambda>kv. list_all (\<lambda>c. c < 128) (fst kv) \<and> list_all (\<lambda>c. c < 128) (snd kv))
     payload_chat_api"
  by (simp add: payload_chat_api_def lit_def)

lemma payload_imessage_conversion_ascii:
  "list_all (\<lambda>kv. list_all (\<lambda>c. c < 128) (fst kv) \<and> list_all (\<lambda>c. c < 128) (snd kv))
     payload_imessage_conversion"
  by (simp add: payload_imessage_conversion_def lit_def)

lemma ascii_items:
  "list_all (\<lambda>kv. list_all (\<lambda>c. c < 128) (fst kv) \<and> list_all (\<lambda>c. c < 128) (snd kv)) d \<Longrightarrow>
   list_all roundtrip_item d \<and> list_all (\<lambda>kv. is_str (fst kv) \<and> is_str (snd kv)) d"
  by (induction d) (simp_all add: roundtrip_item_def ascii_roundtrip)

lemma dumps_payload_chat_api:
  \<open>json_dumps payload_chat_api =
     lit ''{"userId": "user-123", "message": "Hello, this is a test message to verify IMessage conversion", "systemPrompt": "You are a helpful assistant."}''\<close>
  by (simp add: json_dumps_def payload_chat_api_def encode_item_def
      encode_basestring_ascii_def encode_char_def lit_def ESCAPE_ASCII_def
      item_separator_def key_separator_def)

lemma dumps_payload_imessage_conversion:
  \<open>json_dumps payload_imessage_conversion =
     lit ''{"message": "Hello, this is a test message to verify IMessage conversion", "conversationId": "test-conversation-456"}''\<close>
  by (simp add: json_dumps_def payload_imessage_conversion_def encode_item_def
      encode_basestring_ascii_def encode_char_def lit_def ESCAPE_ASCII_def
      item_separator_def key_separator_def)

lemma loads_surrogate_pair:
  "json_loads
     [123, 34, 97, 34, 58, 32, 34, 92, 117, 100, 56, 48, 48, 92, 117, 100, 99, 48, 48, 34, 125] =
   Some [([97], [0x10000])]"
  by (simp add: json_loads_def JSONObject_def members.simps member_def after_member_def
      scanstring.simps escape_def decode_uXXXX_def hexval_def BACKSLASH_def prepend_def
      skip_ws_def WHITESPACE_def expect_def high_surrogate_def low_surrogate_def
      dict_of_pairs_def add_pair_def push_bit_eq_mult)

lemma dumps_surrogate_pair:
  "json_dumps [([97], [0xd800, 0xdc00])] =
     [123, 34, 97, 34, 58, 32, 34, 92, 117, 100, 56, 48, 48, 92, 117, 100, 99, 48, 48, 34, 125]"
  by (simp add: json_dumps_def encode_item_def encode_basestring_ascii_def encode_char_def
      ESCAPE_ASCII_def replace_def ESCAPE_DCT_def format_04x_eq hexdigit_def
      key_separator_def lit_def)

section \<open>Properties of the two scripts\<close>





text \<open>
  C3, as stated, fails.  A Python string may hold the two code points \<open>0xD800\<close> and
  \<open>0xDC00\<close> side by side; \<^verbatim>\<open>json.dumps\<close> writes them as two \<^verbatim>\<open>\uXXXX\<close> escapes, and the
  parser reads these two escapes as the one code point \<open>0x10000\<close>.
\<close>

theorem roundtrip_counterexample:
  "is_dict [([97], [0xd800, 0xdc00])] \<and>
   is_str [97] \<and> is_str [0xd800, 0xdc00] \<and>
   json_loads (json_dumps [([97], [0xd800, 0xdc00])]) = Some [([97], [0x10000])] \<and>
   json_loads (json_dumps [([97], [0xd800, 0xdc00])]) \<noteq> Some [([97], [0xd800, 0xdc00])]"
  by (simp add: is_dict_def is_str_def dumps_surrogate_pair loads_surrogate_pair)

text \<open>
  C3, amended.  For every dict of strings in which no string has a high surrogate
  immediately followed by a low surrogate, parsing the text that \<^verbatim>\<open>json.dumps\<close> returns
  gives back the dict, with its items in the same order.
\<close>

theorem roundtrip_without_surrogate_pairs:
  assumes "is_dict d" and "list_all roundtrip_item d"
  shows "json_loads (json_dumps d) = Some d"
  using assms by (rule loads_dumps)

text \<open>
  Witness for C3: a dict whose strings hold a quote, a backslash, a newline, a control
  character, a character beyond ASCII, one beyond \<open>0xFFFF\<close>, and a low surrogate followed
  by a high one.
\<close>

theorem roundtrip_without_surrogate_pairs_witness:
  "is_dict [([107, 34], [92, 10, 1, 233, 0x1f600]), ([], [0xdc00, 0xd800])] \<and>
   list_all roundtrip_item [([107, 34], [92, 10, 1, 233, 0x1f600]), ([], [0xdc00, 0xd800])] \<and>
   json_loads (json_dumps [([107, 34], [92, 10, 1, 233, 0x1f600]), ([], [0xdc00, 0xd800])]) =
     Some [([107, 34], [92, 10, 1, 233, 0x1f600]), ([], [0xdc00, 0xd800])]"
proof -
  have 1: "is_dict [([107, 34], [92, 10, 1, 233, 0x1f600]), ([], [0xdc00, 0xd800])]"
    by (simp add: is_dict_def)
  have 2: "list_all roundtrip_item
      [([107, 34], [92, 10, 1, 233, 0x1f600]), ([], [0xdc00, 0xd800])]"
    by (simp add: roundtrip_item_def is_str_def high_surrogate_def low_surrogate_def)
  show ?thesis
    by (intro conjI 1 2 roundtrip_without_surrogate_pairs [OF 1 2])
qed

text \<open>
  C4.  The one request of each script is a POST to \<open>http://localhost:5130/api/chat\<close>, and
  the headers the script passes are the single header \<open>Content-Type: application/json\<close>.
\<close>

theorem request_shape:
  "map (\<lambda>rq. (http_method rq, url rq, headers rq)) (sent (snd (test_chat_api nw world0))) =
     [(POST, lit ''http://localhost:5130/api/chat'',
       [(lit ''Content-Type'', lit ''application/json'')])] \<and>
   map (\<lambda>rq. (http_method rq, url rq, headers rq))
     (sent (snd (test_imessage_conversion nw world0))) =
     [(POST, lit ''http://localhost:5130/api/chat'',
       [(lit ''Content-Type'', lit ''application/json'')])]"
  by (simp add: test_chat_api_run test_imessage_conversion_run world0_def
      request_chat_api_def request_imessage_conversion_def url_chat_api_def
      url_imessage_conversion_def headers_chat_api_def headers_imessage_conversion_def)

text \<open>
  C5.  The body the second script sends is the JSON object with the members \<open>message\<close>
  and \<open>conversationId\<close>, and parsing it gives exactly these two keys.
\<close>

theorem imessage_conversion_body:
  \<open>map data (sent (snd (test_imessage_conversion nw world0))) =
     [lit ''{"message": "Hello, this is a test message to verify IMessage conversion", "conversationId": "test-conversation-456"}''] \<and>
   map_option (\<lambda>d. set (map fst d)) (json_loads (json_dumps payload_imessage_conversion)) =
     Some {lit ''message'', lit ''conversationId''}\<close>
proof -
  have "list_all roundtrip_item payload_imessage_conversion"
    using payload_imessage_conversion_ascii by (simp add: ascii_items)
  with payload_imessage_conversion_dict
  have "json_loads (json_dumps payload_imessage_conversion) = Some payload_imessage_conversion"
    by (rule loads_dumps)
  moreover have "set (map fst payload_imessage_conversion) =
      {lit ''message'', lit ''conversationId''}"
    by (simp add: payload_imessage_conversion_def)
  moreover have "map data (sent (snd (test_imessage_conversion nw world0))) =
      [json_dumps payload_imessage_conversion]"
    by (simp add: test_imessage_conversion_run world0_def request_imessage_conversion_def)
  ultimately show ?thesis
    by (simp add: dumps_payload_imessage_conversion)
qed

text \<open>
  C6.  In every run, whatever the network answers, each script calls \<^verbatim>\<open>requests.post\<close> at
  most once.
\<close>

theorem at_most_one_post:
  "length (sent (snd (test_chat_api nw world0))) \<le> 1 \<and>
   length (sent (snd (test_imessage_conversion nw world0))) \<le> 1"
  by (simp add: test_chat_api_run test_imessage_conversion_run world0_def)

text \<open>
  C7.  The payload of each script is a dict, every key and every value of which is a
  string, and the text the script sends is the serialization of that payload.
\<close>

theorem payloads_are_string_mappings:
  "is_dict payload_chat_api \<and>
   list_all (\<lambda>kv. is_str (fst kv) \<and> is_str (snd kv)) payload_chat_api \<and>
   is_dict payload_imessage_conversion \<and>
   list_all (\<lambda>kv. is_str (fst kv) \<and> is_str (snd kv)) payload_imessage_conversion \<and>
   map data (sent (snd (test_chat_api nw world0))) = [json_dumps payload_chat_api] \<and>
   map data (sent (snd (test_imessage_conversion nw world0))) =
     [json_dumps payload_imessage_conversion]"
proof -
  have "list_all (\<lambda>kv. is_str (fst kv) \<and> is_str (snd kv)) payload_chat_api"
    using payload_chat_api_ascii by (simp add: ascii_items)
  moreover have "list_all (\<lambda>kv. is_str (fst kv) \<and> is_str (snd kv)) payload_imessage_conversion"
    using payload_imessage_conversion_ascii by (simp add: ascii_items)
  ultimately show ?thesis
    by (simp add: payload_chat_api_dict payload_imessage_conversion_dict test_chat_api_run
        test_imessage_conversion_run world0_def request_chat_api_def
        request_imessage_conversion_def)
qed



text \<open>
  C9.  Each script is the one-shot sender of the specification applied to the payload of
  that script.
\<close>

theorem scripts_refine_sender:
  "test_chat_api = one_shot_sender payload_chat_api \<and>
   test_imessage_conversion = one_shot_sender payload_imessage_conversion"
  by (intro conjI ext)
    (simp_all add: test_chat_api_run test_imessage_conversion_run one_shot_sender_def
      sender_request_def sender_url_def sender_headers_def request_chat_api_def
      request_imessage_conversion_def url_chat_api_def url_imessage_conversion_def
      headers_chat_api_def headers_imessage_conversion_def Let_def)

text \<open>
  C10.  The body the first script sends is the object with the members \<open>userId\<close>,
  \<open>message\<close> and \<open>systemPrompt\<close> in this order, separated by a comma and a space, each
  name separated from its value by a colon and a space.
\<close>

theorem chat_api_body:
  \<open>map data (sent (snd (test_chat_api nw world0))) =
     [lit ''{"userId": "user-123", "message": "Hello, this is a test message to verify IMessage conversion", "systemPrompt": "You are a helpful assistant."}'']\<close>
  by (simp add: test_chat_api_run world0_def request_chat_api_def dumps_payload_chat_api)

end
